theory Spec2Isabelle
  imports Complex_Main
begin

section \<open>Numbers\<close>

text \<open>
  A JavaScript \<^verbatim>\<open>number\<close> is an IEEE 754 binary64 value: a finite value, \<^verbatim>\<open>NaN\<close> or
  an infinity (\<open>Infinity True\<close> is \<^verbatim>\<open>+Infinity\<close>). A finite value is carried as the
  real number it denotes, and every arithmetic operation rounds its exact result to the
  nearest double, ties to even, with gradual underflow below \<open>2 ^ - 1022\<close> and overflow
  to an infinity from \<open>2 ^ 1024\<close> on. The two zeros are one value \<open>Fin 0\<close>: \<^verbatim>\<open>===\<close>
  and \<^verbatim>\<open><\<close> do not tell them apart, and the only operation modelled here that does,
  a division by zero, occurs in the program with a divisor that is a sum of squares,
  which is never \<^verbatim>\<open>-0\<close>.
\<close>

datatype number = Fin real | NaN | Infinity bool

definition round_half_even :: "real \<Rightarrow> int" where
  "round_half_even x =
     (let f = \<lfloor>x\<rfloor>; d = x - of_int f
      in if d < 1 / 2 then f
         else if 1 / 2 < d then f + 1
         else if even f then f else f + 1)"

text \<open>
  The exponent of \<open>x\<close> is that of its binade, and at least \<open>- 1022\<close>; the doubles of
  that exponent are the multiples of the quantum \<open>q\<close>, 52 binary places below.
\<close>

definition round_double :: "real \<Rightarrow> number" where
  "round_double x =
     (if x = 0 then Fin 0
      else let e = max \<lfloor>log 2 \<bar>x\<bar>\<rfloor> (- 1022);
               q = 2 powr of_int (e - 52);
               y = of_int (round_half_even (x / q)) * q
           in if 2 ^ 1024 \<le> \<bar>y\<bar> then Infinity (0 < x) else Fin y)"

fun num_neg :: "number \<Rightarrow> number" where
  "num_neg (Fin a) = Fin (- a)"
| "num_neg NaN = NaN"
| "num_neg (Infinity s) = Infinity (\<not> s)"

fun num_add :: "number \<Rightarrow> number \<Rightarrow> number" where
  "num_add (Fin a) (Fin b) = round_double (a + b)"
| "num_add NaN _ = NaN"
| "num_add _ NaN = NaN"
| "num_add (Infinity s) (Infinity t) = (if s = t then Infinity s else NaN)"
| "num_add (Infinity s) (Fin b) = Infinity s"
| "num_add (Fin a) (Infinity t) = Infinity t"

definition num_sub :: "number \<Rightarrow> number \<Rightarrow> number" where
  "num_sub a b = num_add a (num_neg b)"

fun num_mult :: "number \<Rightarrow> number \<Rightarrow> number" where
  "num_mult (Fin a) (Fin b) = round_double (a * b)"
| "num_mult NaN _ = NaN"
| "num_mult _ NaN = NaN"
| "num_mult (Infinity s) (Infinity t) = Infinity (s = t)"
| "num_mult (Infinity s) (Fin b) = (if b = 0 then NaN else Infinity (s = (0 < b)))"
| "num_mult (Fin a) (Infinity t) = (if a = 0 then NaN else Infinity (t = (0 < a)))"

fun num_div :: "number \<Rightarrow> number \<Rightarrow> number" where
  "num_div (Fin a) (Fin b) =
     (if b \<noteq> 0 then round_double (a / b)
      else if a = 0 then NaN
      else Infinity (0 < a))"
| "num_div NaN _ = NaN"
| "num_div _ NaN = NaN"
| "num_div (Infinity s) (Infinity t) = NaN"
| "num_div (Infinity s) (Fin b) = Infinity (s = (0 \<le> b))"
| "num_div (Fin a) (Infinity t) = Fin 0"

fun num_less :: "number \<Rightarrow> number \<Rightarrow> bool" where
  "num_less (Fin a) (Fin b) = (a < b)"
| "num_less NaN _ = False"
| "num_less _ NaN = False"
| "num_less (Infinity s) (Infinity t) = (\<not> s \<and> t)"
| "num_less (Infinity s) (Fin b) = (\<not> s)"
| "num_less (Fin a) (Infinity t) = t"

fun num_le :: "number \<Rightarrow> number \<Rightarrow> bool" where
  "num_le (Fin a) (Fin b) = (a \<le> b)"
| "num_le NaN _ = False"
| "num_le _ NaN = False"
| "num_le (Infinity s) (Infinity t) = (\<not> s \<or> t)"
| "num_le (Infinity s) (Fin b) = (\<not> s)"
| "num_le (Fin a) (Infinity t) = t"

fun num_eq :: "number \<Rightarrow> number \<Rightarrow> bool" where
  "num_eq (Fin a) (Fin b) = (a = b)"
| "num_eq (Infinity s) (Infinity t) = (s = t)"
| "num_eq _ _ = False"

fun Math_abs :: "number \<Rightarrow> number" where
  "Math_abs (Fin a) = Fin \<bar>a\<bar>"
| "Math_abs NaN = NaN"
| "Math_abs (Infinity s) = Infinity True"

text \<open>
  \<^verbatim>\<open>Math.sqrt\<close> is the square root operation of IEEE 754, which rounds correctly.
  \<^verbatim>\<open>x ** 2\<close> is the rounded square; the program applies it to the result of a square
  root only. \<^verbatim>\<open>Math.PI\<close> is the double nearest to \<open>\<pi>\<close>, and a decimal literal is
  the double nearest to its value.
\<close>

fun Math_sqrt :: "number \<Rightarrow> number" where
  "Math_sqrt (Fin a) = (if a < 0 then NaN else round_double (sqrt a))"
| "Math_sqrt NaN = NaN"
| "Math_sqrt (Infinity s) = (if s then Infinity True else NaN)"

definition num_pow2 :: "number \<Rightarrow> number" where
  "num_pow2 x = num_mult x x"

definition Math_PI :: number where
  "Math_PI = round_double pi"

definition literal_1e_15 :: number where
  "literal_1e_15 = round_double (1 / 10 ^ 15)"

definition literal_1e_12 :: number where
  "literal_1e_12 = round_double (1 / 10 ^ 12)"

text \<open>
  \<^verbatim>\<open>Math.cos\<close> and \<^verbatim>\<open>Math.sin\<close> are approximations that the language leaves to the
  engine: they are the two fields of a platform, which the gate registries take as a
  parameter.
\<close>

record platform =
  Math_cos :: "number \<Rightarrow> number"
  Math_sin :: "number \<Rightarrow> number"

section \<open>Complex numbers\<close>

text \<open>
  The class \<^verbatim>\<open>Complex\<close> is declared twice, with the same fields and the same method
  bodies: in the kernel module, where the constructor snaps components below
  \<^verbatim>\<open>1e-15\<close> to zero, and inline in \<^verbatim>\<open>App.tsx\<close>, where the constructor body is
  empty. Every method builds its result with \<^verbatim>\<open>new Complex(...)\<close>, so the methods take
  the constructor of their class as the parameter \<open>new\<close>.
\<close>

record Complex =
  re :: number
  im :: number

type_synonym ctor = "number \<Rightarrow> number \<Rightarrow> Complex"

definition Complex_new :: ctor where
  \<comment> \<open>kernel module: \<^verbatim>\<open>this.re = Math.abs(this.re) < 1e-15 ? 0 : this.re\<close>, and
      the same for \<^verbatim>\<open>im\<close>\<close>
  "Complex_new r i =
     \<lparr> re = (if num_less (Math_abs r) literal_1e_15 then Fin 0 else r),
       im = (if num_less (Math_abs i) literal_1e_15 then Fin 0 else i) \<rparr>"

definition Complex_new_App :: ctor where
  \<comment> \<open>\<^verbatim>\<open>App.tsx\<close>: \<^verbatim>\<open>constructor(public re: number, public im: number = 0) {}\<close>\<close>
  "Complex_new_App r i = \<lparr> re = r, im = i \<rparr>"

definition Complex_fromPolar :: "platform \<Rightarrow> ctor \<Rightarrow> number \<Rightarrow> number \<Rightarrow> Complex" where
  "Complex_fromPolar P new magn phase =
     new (num_mult magn (Math_cos P phase)) (num_mult magn (Math_sin P phase))"

definition Complex_zero :: "ctor \<Rightarrow> Complex" where
  "Complex_zero new = new (Fin 0) (Fin 0)"

definition Complex_one :: "ctor \<Rightarrow> Complex" where
  "Complex_one new = new (Fin 1) (Fin 0)"

definition Complex_i :: "ctor \<Rightarrow> Complex" where
  "Complex_i new = new (Fin 0) (Fin 1)"

definition multiply :: "ctor \<Rightarrow> Complex \<Rightarrow> Complex \<Rightarrow> Complex" where
  "multiply new this other =
     new (num_sub (num_mult (re this) (re other)) (num_mult (im this) (im other)))
         (num_add (num_mult (re this) (im other)) (num_mult (im this) (re other)))"

definition add :: "ctor \<Rightarrow> Complex \<Rightarrow> Complex \<Rightarrow> Complex" where
  "add new this other = new (num_add (re this) (re other)) (num_add (im this) (im other))"

definition subtract :: "ctor \<Rightarrow> Complex \<Rightarrow> Complex \<Rightarrow> Complex" where
  "subtract new this other = new (num_sub (re this) (re other)) (num_sub (im this) (im other))"

definition conjugate :: "ctor \<Rightarrow> Complex \<Rightarrow> Complex" where
  "conjugate new this = new (re this) (num_neg (im this))"

definition magnitude :: "Complex \<Rightarrow> number" where
  "magnitude this =
     Math_sqrt (num_add (num_mult (re this) (re this)) (num_mult (im this) (im this)))"

definition magnitudeSquared :: "Complex \<Rightarrow> number" where
  "magnitudeSquared this =
     num_add (num_mult (re this) (re this)) (num_mult (im this) (im this))"

definition normalize :: "ctor \<Rightarrow> Complex \<Rightarrow> Complex" where
  "normalize new this =
     (let mag = magnitude this
      in if num_eq mag (Fin 0) then Complex_zero new
         else new (num_div (re this) mag) (num_div (im this) mag))"

definition equals :: "Complex \<Rightarrow> Complex \<Rightarrow> number \<Rightarrow> bool" where
  "equals this other tolerance =
     (num_less (Math_abs (num_sub (re this) (re other))) tolerance \<and>
      num_less (Math_abs (num_sub (im this) (im other))) tolerance)"

section \<open>Matrices, vectors and the gate registry\<close>

type_synonym Matrix2x2 = "(Complex \<times> Complex) \<times> (Complex \<times> Complex)"
type_synonym StateVector = "Complex \<times> Complex"

definition SQRT2 :: number where
  "SQRT2 = Math_sqrt (Fin 2)"

definition SQRT2_INV :: number where
  "SQRT2_INV = num_div (Fin 1) SQRT2"

definition PI_4 :: number where
  "PI_4 = num_div Math_PI (Fin 4)"

datatype GateName = H | X | Y | Z | S | T | S_dagger | T_dagger

fun GATES :: "platform \<Rightarrow> GateName \<Rightarrow> Matrix2x2" where
  "GATES P H = ((Complex_new SQRT2_INV (Fin 0), Complex_new SQRT2_INV (Fin 0)),
                (Complex_new SQRT2_INV (Fin 0), Complex_new (num_neg SQRT2_INV) (Fin 0)))"
| "GATES P X = ((Complex_zero Complex_new, Complex_one Complex_new),
                (Complex_one Complex_new, Complex_zero Complex_new))"
| "GATES P Y = ((Complex_zero Complex_new, Complex_new (Fin 0) (Fin (- 1))),
                (Complex_i Complex_new, Complex_zero Complex_new))"
| "GATES P Z = ((Complex_one Complex_new, Complex_zero Complex_new),
                (Complex_zero Complex_new, Complex_new (Fin (- 1)) (Fin 0)))"
| "GATES P S = ((Complex_one Complex_new, Complex_zero Complex_new),
                (Complex_zero Complex_new, Complex_i Complex_new))"
| "GATES P T = ((Complex_one Complex_new, Complex_zero Complex_new),
                (Complex_zero Complex_new, Complex_fromPolar P Complex_new (Fin 1) PI_4))"
| "GATES P S_dagger = ((Complex_one Complex_new, Complex_zero Complex_new),
                       (Complex_zero Complex_new, Complex_new (Fin 0) (Fin (- 1))))"
| "GATES P T_dagger = ((Complex_one Complex_new, Complex_zero Complex_new),
                       (Complex_zero Complex_new,
                        Complex_fromPolar P Complex_new (Fin 1) (num_neg PI_4)))"

text \<open>The registry of \<^verbatim>\<open>App.tsx\<close>, built with its own constructor.\<close>

fun GATES_App :: "platform \<Rightarrow> GateName \<Rightarrow> Matrix2x2" where
  "GATES_App P H =
     ((Complex_new_App (num_div (Fin 1) (Math_sqrt (Fin 2))) (Fin 0),
       Complex_new_App (num_div (Fin 1) (Math_sqrt (Fin 2))) (Fin 0)),
      (Complex_new_App (num_div (Fin 1) (Math_sqrt (Fin 2))) (Fin 0),
       Complex_new_App (num_div (Fin (- 1)) (Math_sqrt (Fin 2))) (Fin 0)))"
| "GATES_App P X = ((Complex_new_App (Fin 0) (Fin 0), Complex_new_App (Fin 1) (Fin 0)),
                    (Complex_new_App (Fin 1) (Fin 0), Complex_new_App (Fin 0) (Fin 0)))"
| "GATES_App P Y = ((Complex_new_App (Fin 0) (Fin 0), Complex_new_App (Fin 0) (Fin (- 1))),
                    (Complex_new_App (Fin 0) (Fin 1), Complex_new_App (Fin 0) (Fin 0)))"
| "GATES_App P Z = ((Complex_new_App (Fin 1) (Fin 0), Complex_new_App (Fin 0) (Fin 0)),
                    (Complex_new_App (Fin 0) (Fin 0), Complex_new_App (Fin (- 1)) (Fin 0)))"
| "GATES_App P S = ((Complex_new_App (Fin 1) (Fin 0), Complex_new_App (Fin 0) (Fin 0)),
                    (Complex_new_App (Fin 0) (Fin 0), Complex_new_App (Fin 0) (Fin 1)))"
| "GATES_App P T =
     ((Complex_new_App (Fin 1) (Fin 0), Complex_new_App (Fin 0) (Fin 0)),
      (Complex_new_App (Fin 0) (Fin 0),
       Complex_new_App (Math_cos P (num_div Math_PI (Fin 4)))
                       (Math_sin P (num_div Math_PI (Fin 4)))))"
| "GATES_App P S_dagger =
     ((Complex_new_App (Fin 1) (Fin 0), Complex_new_App (Fin 0) (Fin 0)),
      (Complex_new_App (Fin 0) (Fin 0), Complex_new_App (Fin 0) (Fin (- 1))))"
| "GATES_App P T_dagger =
     ((Complex_new_App (Fin 1) (Fin 0), Complex_new_App (Fin 0) (Fin 0)),
      (Complex_new_App (Fin 0) (Fin 0),
       Complex_new_App (Math_cos P (num_div (num_neg Math_PI) (Fin 4)))
                       (Math_sin P (num_div (num_neg Math_PI) (Fin 4)))))"

definition multiplyMatrices :: "ctor \<Rightarrow> Matrix2x2 \<Rightarrow> Matrix2x2 \<Rightarrow> Matrix2x2" where
  "multiplyMatrices new a b =
     (case a of ((a00, a01), (a10, a11)) \<Rightarrow>
      case b of ((b00, b01), (b10, b11)) \<Rightarrow>
        ((add new (multiply new a00 b00) (multiply new a01 b10),
          add new (multiply new a00 b01) (multiply new a01 b11)),
         (add new (multiply new a10 b00) (multiply new a11 b10),
          add new (multiply new a10 b01) (multiply new a11 b11))))"

definition applyMatrix :: "ctor \<Rightarrow> Matrix2x2 \<Rightarrow> StateVector \<Rightarrow> StateVector" where
  "applyMatrix new matrix state =
     (case matrix of ((m00, m01), (m10, m11)) \<Rightarrow>
      case state of (s0, s1) \<Rightarrow>
        (add new (multiply new m00 s0) (multiply new m01 s1),
         add new (multiply new m10 s0) (multiply new m11 s1)))"

definition getIdentityMatrix :: "ctor \<Rightarrow> Matrix2x2" where
  "getIdentityMatrix new =
     ((Complex_one new, Complex_zero new), (Complex_zero new, Complex_one new))"

section \<open>Validation and statistics (kernel module)\<close>

text \<open>
  The two nested loops of \<^verbatim>\<open>isUnitary\<close> return false at the first entry that is not
  within the tolerance of the identity's, and true after the four entries: the
  conjunction of the four tests, in the order of the loops.
\<close>

definition isUnitary :: "Matrix2x2 \<Rightarrow> number \<Rightarrow> bool" where
  "isUnitary matrix tolerance =
     (case matrix of ((m00, m01), (m10, m11)) \<Rightarrow>
      let conjugateTranspose =
            ((conjugate Complex_new m00, conjugate Complex_new m10),
             (conjugate Complex_new m01, conjugate Complex_new m11));
          product = multiplyMatrices Complex_new conjugateTranspose matrix;
          identity = getIdentityMatrix Complex_new
      in equals (fst (fst product)) (fst (fst identity)) tolerance \<and>
         equals (snd (fst product)) (snd (fst identity)) tolerance \<and>
         equals (fst (snd product)) (fst (snd identity)) tolerance \<and>
         equals (snd (snd product)) (snd (snd identity)) tolerance)"

definition isNormalized :: "StateVector \<Rightarrow> number \<Rightarrow> bool" where
  "isNormalized state tolerance =
     (let norm = num_add (magnitudeSquared (fst state)) (magnitudeSquared (snd state))
      in num_less (Math_abs (num_sub norm (Fin 1))) tolerance)"

record Probabilities =
  prob0 :: number
  prob1 :: number
  isNormalized_flag :: bool

definition calculateProbabilities :: "StateVector \<Rightarrow> Probabilities" where
  "calculateProbabilities state =
     (let p0 = magnitudeSquared (fst state);
          p1 = magnitudeSquared (snd state);
          total = num_add p0 p1
      in \<lparr> prob0 = num_div p0 total,
           prob1 = num_div p1 total,
           isNormalized_flag = num_less (Math_abs (num_sub total (Fin 1))) literal_1e_12 \<rparr>)"

definition calculatePurity :: "StateVector \<Rightarrow> number" where
  "calculatePurity state =
     (let probs = calculateProbabilities state
      in num_add (num_mult (prob0 probs) (prob0 probs))
                 (num_mult (prob1 probs) (prob1 probs)))"

text \<open>
  \<^verbatim>\<open>App.tsx\<close> has its own \<^verbatim>\<open>calculateProbabilities\<close>, which squares the magnitudes
  (\<^verbatim>\<open>state[0].magnitude() ** 2\<close>) and returns the divisor as
  \<^verbatim>\<open>normalizationFactor\<close>.
\<close>

record Probabilities_App =
  prob0_App :: number
  prob1_App :: number
  normalizationFactor :: number

definition calculateProbabilities_App :: "StateVector \<Rightarrow> Probabilities_App" where
  "calculateProbabilities_App state =
     (let p0 = num_pow2 (magnitude (fst state));
          p1 = num_pow2 (magnitude (snd state));
          total = num_add p0 p1
      in \<lparr> prob0_App = num_div p0 total,
           prob1_App = num_div p1 total,
           normalizationFactor = total \<rparr>)"

section \<open>The composition engine and its history (\<^verbatim>\<open>App.tsx\<close>)\<close>

text \<open>
  The component's state variables \<^verbatim>\<open>operations\<close>, \<^verbatim>\<open>currentState\<close>,
  \<^verbatim>\<open>compositeMatrix\<close>, \<^verbatim>\<open>history\<close> and \<^verbatim>\<open>historyIndex\<close> are the fields of one
  record, and every callback is a function from the state of the render it closes over
  to the state after its setters have run. A snapshot (\<^verbatim>\<open>HistoryState\<close>) has the
  first three fields, so the state extends it. The identifier of a new operation
  (\<^verbatim>\<open>Date.now().toString() + Math.random()...\<close>) and its timestamp are arguments.
\<close>

record GateOperation =
  opid :: string
  gate :: GateName
  timestamp :: nat

record HistoryState =
  operations :: "GateOperation list"
  currentState :: StateVector
  compositeMatrix :: Matrix2x2

record AppState = HistoryState +
  history :: "HistoryState list"
  historyIndex :: int

datatype error = TypeError

definition initialApp :: AppState where
  "initialApp =
     \<lparr> operations = [],
       currentState = (Complex_new_App (Fin 1) (Fin 0), Complex_new_App (Fin 0) (Fin 0)),
       compositeMatrix = getIdentityMatrix Complex_new_App,
       history = [],
       historyIndex = - 1 \<rparr>"

definition slice :: "'a list \<Rightarrow> int \<Rightarrow> int \<Rightarrow> 'a list" where
  \<comment> \<open>\<^verbatim>\<open>Array.prototype.slice(start, end)\<close>: a negative index counts from the end,
      and both are clamped to the array\<close>
  "slice xs start end =
     (let len = int (length xs);
          k = (if start < 0 then max (len + start) 0 else min start len);
          final = (if end < 0 then max (len + end) 0 else min end len)
      in take (nat (final - k)) (drop (nat k) xs))"

definition saveToHistory ::
  "GateOperation list \<Rightarrow> StateVector \<Rightarrow> Matrix2x2 \<Rightarrow> AppState \<Rightarrow> AppState" where
  "saveToHistory ops state matrix s =
     (let newState = \<lparr> operations = ops, currentState = state, compositeMatrix = matrix \<rparr>;
          newHistory = slice (history s) 0 (historyIndex s + 1) @ [newState];
          newHistory = (if length newHistory > 100 then tl newHistory else newHistory)
      in s \<lparr> history := newHistory, historyIndex := int (length newHistory) - 1 \<rparr>)"

definition addGate :: "platform \<Rightarrow> GateName \<Rightarrow> string \<Rightarrow> nat \<Rightarrow> AppState \<Rightarrow> AppState" where
  "addGate P gateName newId now s =
     (let newOperation = \<lparr> opid = newId, gate = gateName, timestamp = now \<rparr>;
          newOperations = operations s @ [newOperation];
          gateMatrix = GATES_App P gateName;
          newState = applyMatrix Complex_new_App gateMatrix (currentState s);
          newCompositeMatrix = multiplyMatrices Complex_new_App gateMatrix (compositeMatrix s)
      in (saveToHistory newOperations newState newCompositeMatrix s)
           \<lparr> operations := newOperations,
             currentState := newState,
             compositeMatrix := newCompositeMatrix \<rparr>)"

definition reset :: "AppState \<Rightarrow> AppState" where
  "reset s =
     (let initialState = (Complex_new_App (Fin 1) (Fin 0), Complex_new_App (Fin 0) (Fin 0));
          initialMatrix = getIdentityMatrix Complex_new_App;
          initialOps = []
      in (saveToHistory initialOps initialState initialMatrix s)
           \<lparr> operations := initialOps,
             currentState := initialState,
             compositeMatrix := initialMatrix \<rparr>)"

text \<open>
  \<^verbatim>\<open>history[historyIndex - 1]\<close> is \<^verbatim>\<open>undefined\<close> when the index is outside the log,
  and reading \<^verbatim>\<open>.operations\<close> of it throws a \<^verbatim>\<open>TypeError\<close>.
\<close>

definition undo :: "AppState \<Rightarrow> error + AppState" where
  "undo s =
     (if historyIndex s > 0 then
        (if historyIndex s - 1 < int (length (history s)) then
           (let prevState = history s ! nat (historyIndex s - 1)
            in Inr (s \<lparr> historyIndex := historyIndex s - 1,
                        operations := operations prevState,
                        currentState := currentState prevState,
                        compositeMatrix := compositeMatrix prevState \<rparr>))
         else Inl TypeError)
      else Inr s)"

definition redo :: "AppState \<Rightarrow> error + AppState" where
  "redo s =
     (if historyIndex s < int (length (history s)) - 1 then
        (if 0 \<le> historyIndex s + 1 then
           (let nextState = history s ! nat (historyIndex s + 1)
            in Inr (s \<lparr> historyIndex := historyIndex s + 1,
                        operations := operations nextState,
                        currentState := currentState nextState,
                        compositeMatrix := compositeMatrix nextState \<rparr>))
         else Inl TypeError)
      else Inr s)"

text \<open>
  The loop of \<^verbatim>\<open>removeOperation\<close>,
  \<^verbatim>\<open>for (let i = newOperations.length - 1; i >= 0; i--)\<close>: \<open>removeOperation_loop P ops k m\<close>
  is the loop at \<open>i = k - 1\<close> with \<^verbatim>\<open>newMatrix = m\<close>.
\<close>

fun removeOperation_loop ::
  "platform \<Rightarrow> GateOperation list \<Rightarrow> nat \<Rightarrow> Matrix2x2 \<Rightarrow> Matrix2x2" where
  "removeOperation_loop P newOperations 0 newMatrix = newMatrix"
| "removeOperation_loop P newOperations (Suc i) newMatrix =
     removeOperation_loop P newOperations i
       (multiplyMatrices Complex_new_App (GATES_App P (gate (newOperations ! i))) newMatrix)"

definition removeOperation :: "platform \<Rightarrow> string \<Rightarrow> AppState \<Rightarrow> AppState" where
  "removeOperation P operationId s =
     (let newOperations = filter (\<lambda>op. opid op \<noteq> operationId) (operations s);
          newMatrix = removeOperation_loop P newOperations (length newOperations)
                        (getIdentityMatrix Complex_new_App);
          newState = applyMatrix Complex_new_App newMatrix
                       (Complex_new_App (Fin 1) (Fin 0), Complex_new_App (Fin 0) (Fin 0))
      in (saveToHistory newOperations newState newMatrix s)
           \<lparr> operations := newOperations,
             currentState := newState,
             compositeMatrix := newMatrix \<rparr>)"

section \<open>Notions of the specification\<close>

text \<open>
  The product of the gate matrices of a sequence, taken right to left: the matrix of
  the most recently appended operation is the leftmost factor.
\<close>

definition gate_product :: "platform \<Rightarrow> GateOperation list \<Rightarrow> Matrix2x2" where
  "gate_product P ops =
     foldr (\<lambda>op m. multiplyMatrices Complex_new_App (GATES_App P (gate op)) m)
       (rev ops) (getIdentityMatrix Complex_new_App)"

definition composition_invariant :: "platform \<Rightarrow> AppState \<Rightarrow> bool" where
  "composition_invariant P s \<longleftrightarrow>
     compositeMatrix s = gate_product P (operations s) \<and>
     currentState s =
       applyMatrix Complex_new_App (compositeMatrix s)
         (Complex_new_App (Fin 1) (Fin 0), Complex_new_App (Fin 0) (Fin 0))"

text \<open>The states that append, remove and reset reach from the initial one.\<close>

inductive reachable :: "platform \<Rightarrow> AppState \<Rightarrow> bool" for P :: platform where
  reachable_initial: "reachable P initialApp"
| reachable_addGate: "reachable P s \<Longrightarrow> reachable P (addGate P gateName newId now s)"
| reachable_removeOperation: "reachable P s \<Longrightarrow> reachable P (removeOperation P operationId s)"
| reachable_reset: "reachable P s \<Longrightarrow> reachable P (reset s)"

text \<open>Building a sequence by repeated append, and undoing a number of times.\<close>

fun append_all :: "platform \<Rightarrow> GateOperation list \<Rightarrow> AppState \<Rightarrow> AppState" where
  "append_all P [] s = s"
| "append_all P (op # ops) s =
     append_all P ops (addGate P (gate op) (opid op) (timestamp op) s)"


definition snapshot :: "AppState \<Rightarrow> HistoryState" where
  "snapshot s =
     \<lparr> operations = operations s, currentState = currentState s,
       compositeMatrix = compositeMatrix s \<rparr>"


text \<open>Two matrices agree when each pair of entries is equal within the tolerance.\<close>

definition matrix_equals :: "Matrix2x2 \<Rightarrow> Matrix2x2 \<Rightarrow> number \<Rightarrow> bool" where
  "matrix_equals a b tolerance \<longleftrightarrow>
     equals (fst (fst a)) (fst (fst b)) tolerance \<and>
     equals (snd (fst a)) (snd (fst b)) tolerance \<and>
     equals (fst (snd a)) (fst (snd b)) tolerance \<and>
     equals (snd (snd a)) (snd (snd b)) tolerance"

text \<open>
  A component is snapped when it is zero or at least \<^verbatim>\<open>1e-15\<close> in absolute value;
  \<open>snapped_or_NaN\<close> also lets a component be \<^verbatim>\<open>NaN\<close>.
\<close>

definition snapped :: "Complex \<Rightarrow> bool" where
  "snapped c \<longleftrightarrow>
     (re c = Fin 0 \<or> num_le literal_1e_15 (Math_abs (re c))) \<and>
     (im c = Fin 0 \<or> num_le literal_1e_15 (Math_abs (im c)))"

definition snapped_or_NaN :: "Complex \<Rightarrow> bool" where
  "snapped_or_NaN c \<longleftrightarrow>
     (re c = Fin 0 \<or> re c = NaN \<or> num_le literal_1e_15 (Math_abs (re c))) \<and>
     (im c = Fin 0 \<or> im c = NaN \<or> num_le literal_1e_15 (Math_abs (im c)))"

text \<open>A number is in the range from \<open>a\<close> to \<open>b\<close> when it is finite and its value lies between them.\<close>

definition in_range :: "number \<Rightarrow> real \<Rightarrow> real \<Rightarrow> bool" where
  "in_range n a b \<longleftrightarrow> (\<exists>y. n = Fin y \<and> a \<le> y \<and> y \<le> b)"

text \<open>
  A platform whose cosine and sine are right to 13 decimal places at the two arguments
  that the registries pass them, \<open>PI_4\<close> and its negation.
\<close>

definition accurate_at_PI_4 :: "platform \<Rightarrow> bool" where
  "accurate_at_PI_4 P \<longleftrightarrow>
     in_range (Math_cos P PI_4) (7071067811865 / 10 ^ 13) (7071067811866 / 10 ^ 13) \<and>
     in_range (Math_sin P PI_4) (7071067811865 / 10 ^ 13) (7071067811866 / 10 ^ 13) \<and>
     in_range (Math_cos P (num_neg PI_4)) (7071067811865 / 10 ^ 13) (7071067811866 / 10 ^ 13) \<and>
     in_range (Math_sin P (num_neg PI_4)) (- (7071067811866 / 10 ^ 13)) (- (7071067811865 / 10 ^ 13))"

text \<open>
  The platform of the engines built on fdlibm (V8, SpiderMonkey): at \<open>PI_4\<close> the cosine
  is \<^verbatim>\<open>0.7071067811865476\<close> and the sine \<^verbatim>\<open>0.7071067811865475\<close>, and at the
  negation the cosine is the same and the sine the opposite. At the other arguments,
  which the program never passes, it is given the correctly rounded values.
\<close>

definition fdlibm :: platform where
  "fdlibm =
     \<lparr> Math_cos = (\<lambda>x. if x = PI_4 \<or> x = num_neg PI_4 then Fin (6369051672525773 / 2 ^ 53)
                       else case x of Fin a \<Rightarrow> round_double (cos a) | _ \<Rightarrow> NaN),
       Math_sin = (\<lambda>x. if x = PI_4 then Fin (6369051672525772 / 2 ^ 53)
                       else if x = num_neg PI_4 then Fin (- (6369051672525772 / 2 ^ 53))
                       else case x of Fin a \<Rightarrow> round_double (sin a) | _ \<Rightarrow> NaN) \<rparr>"

section \<open>Rounding\<close>

lemma round_half_even_error: "\<bar>of_int (round_half_even x) - x\<bar> \<le> 1 / 2"
proof -
  have "of_int \<lfloor>x\<rfloor> \<le> x" "x < of_int \<lfloor>x\<rfloor> + 1" by linarith+
  then show ?thesis
    unfolding round_half_even_def Let_def
    by (simp add: abs_le_iff)
qed

lemma round_half_even_of_int [simp]: "round_half_even (of_int k) = k"
  by (simp add: round_half_even_def)


lemma round_half_even_minus: "round_half_even (- x) = - round_half_even x"
proof (cases "x = of_int \<lfloor>x\<rfloor>")
  case True
  then have "round_half_even (- x) = round_half_even (of_int (- \<lfloor>x\<rfloor>))"
    by simp
  also have "\<dots> = - \<lfloor>x\<rfloor>" by (rule round_half_even_of_int)
  also have "\<dots> = - round_half_even (of_int \<lfloor>x\<rfloor>)" by simp
  finally show ?thesis using True by simp
next
  case False
  have "of_int \<lfloor>x\<rfloor> \<le> x" "x < of_int \<lfloor>x\<rfloor> + 1" by linarith+
  with False have lt: "of_int \<lfloor>x\<rfloor> < x" by linarith
  have a: "of_int (- \<lfloor>x\<rfloor> - 1) \<le> - x"
    by simp linarith
  have b: "- x < of_int (- \<lfloor>x\<rfloor> - 1) + 1"
    using lt by simp
  have f: "\<lfloor>- x\<rfloor> = - \<lfloor>x\<rfloor> - 1"
    using a b by (rule floor_unique)
  show ?thesis
    unfolding round_half_even_def Let_def f by (simp add: algebra_simps)
qed


lemma round_double_0 [simp]: "round_double 0 = Fin 0"
  by (simp add: round_double_def)

lemma round_double_minus: "round_double (- x) = num_neg (round_double x)"
  by (cases "x = 0") (auto simp: round_double_def Let_def round_half_even_minus)

lemma round_double_quantum:
  assumes "x \<noteq> 0"
  defines "q \<equiv> 2 powr of_int (max \<lfloor>log 2 \<bar>x\<bar>\<rfloor> (- 1022) - 52)"
  shows "0 < q" "q / 2 \<le> \<bar>x\<bar> / 2 ^ 53 + 1 / 2 ^ 1075"
proof -
  show "0 < q" by (simp add: q_def)
  show "q / 2 \<le> \<bar>x\<bar> / 2 ^ 53 + 1 / 2 ^ 1075"
  proof (cases "- 1022 \<le> \<lfloor>log 2 \<bar>x\<bar>\<rfloor>")
    case True
    have "of_int \<lfloor>log 2 \<bar>x\<bar>\<rfloor> \<le> log 2 \<bar>x\<bar>" by simp
    then have "2 powr of_int \<lfloor>log 2 \<bar>x\<bar>\<rfloor> \<le> 2 powr log 2 \<bar>x\<bar>"
      by (intro powr_mono) simp_all
    also have "\<dots> = \<bar>x\<bar>" using assms by simp
    finally have le: "2 powr of_int \<lfloor>log 2 \<bar>x\<bar>\<rfloor> \<le> \<bar>x\<bar>" .
    have "max \<lfloor>log 2 \<bar>x\<bar>\<rfloor> (- 1022) = \<lfloor>log 2 \<bar>x\<bar>\<rfloor>"
      using True by (rule max_absorb1)
    then have "q = 2 powr (of_int \<lfloor>log 2 \<bar>x\<bar>\<rfloor> - 52)"
      by (simp add: q_def)
    then have "q = 2 powr of_int \<lfloor>log 2 \<bar>x\<bar>\<rfloor> / 2 ^ 52"
      by (simp add: powr_diff)
    then have "q / 2 = 2 powr of_int \<lfloor>log 2 \<bar>x\<bar>\<rfloor> / 2 ^ 53" by simp
    also have "\<dots> \<le> \<bar>x\<bar> / 2 ^ 53" using le by (simp add: divide_right_mono)
    finally show ?thesis by simp
  next
    case False
    then have "max \<lfloor>log 2 \<bar>x\<bar>\<rfloor> (- 1022) = - 1022"
      by (intro max_absorb2) linarith
    then have "q = 2 powr (- 1074)" by (simp add: q_def)
    also have "\<dots> = 1 / 2 ^ 1074" by (simp add: powr_neg_numeral)
    finally have "q / 2 = 1 / 2 ^ 1075" by simp
    then show ?thesis by simp
  qed
qed

lemma round_double_error:
  assumes "\<bar>x\<bar> \<le> 2 ^ 1023"
  shows "\<exists>y. round_double x = Fin y \<and> \<bar>y - x\<bar> \<le> \<bar>x\<bar> / 2 ^ 53 + 1 / 2 ^ 1075"
proof (cases "x = 0")
  case True
  then show ?thesis by simp
next
  case False
  define q :: real where "q = 2 powr of_int (max \<lfloor>log 2 \<bar>x\<bar>\<rfloor> (- 1022) - 52)"
  define y where "y = of_int (round_half_even (x / q)) * q"
  have q: "0 < q" "q / 2 \<le> \<bar>x\<bar> / 2 ^ 53 + 1 / 2 ^ 1075"
    using round_double_quantum [OF False] by (simp_all add: q_def)
  have "\<bar>of_int (round_half_even (x / q)) - x / q\<bar> * q \<le> 1 / 2 * q"
    using round_half_even_error [of "x / q"] q(1) by (intro mult_right_mono) simp_all
  moreover have "\<bar>of_int (round_half_even (x / q)) - x / q\<bar> * q = \<bar>y - x\<bar>"
  proof -
    have "(of_int (round_half_even (x / q)) - x / q) * q = y - x"
      using q(1) by (simp add: y_def left_diff_distrib)
    then have "\<bar>y - x\<bar> = \<bar>of_int (round_half_even (x / q)) - x / q\<bar> * \<bar>q\<bar>"
      by (simp only: abs_mult [symmetric])
    then show ?thesis using q(1) by simp
  qed
  ultimately have err: "\<bar>y - x\<bar> \<le> q / 2" by simp
  with q(2) have e2: "\<bar>y - x\<bar> \<le> \<bar>x\<bar> / 2 ^ 53 + 1 / 2 ^ 1075" by simp
  have "\<bar>x\<bar> / 2 ^ 53 \<le> 2 ^ 1023 / 2 ^ 53" using assms by (simp add: divide_right_mono)
  then have "\<bar>y\<bar> < 2 ^ 1024" using e2 assms by simp
  then have "round_double x = Fin y"
    using False by (simp add: round_double_def Let_def q_def y_def)
  with e2 show ?thesis by blast
qed


lemma round_double_between:
  assumes "a \<le> x" "x \<le> b" "lo \<le> a - a / 10 ^ 15" "b + b / 10 ^ 15 \<le> hi"
    and "1 / 10 ^ 100 \<le> a" "b \<le> 10 ^ 100"
  obtains y where "round_double x = Fin y" "lo \<le> y" "y \<le> hi"
proof -
  have pos: "0 < x" using assms by (simp add: less_le_trans [of 0 "1 / 10 ^ 100"])
  have "\<bar>x\<bar> \<le> 10 ^ 100" using assms pos by simp
  also have "(10::real) ^ 100 \<le> 2 ^ 1023" by simp
  finally obtain y where y: "round_double x = Fin y"
    and e: "\<bar>y - x\<bar> \<le> \<bar>x\<bar> / 2 ^ 53 + 1 / 2 ^ 1075"
    using round_double_error by blast
  have "(1::real) / 2 ^ 1075 \<le> (1 / 10 ^ 100) / 10 ^ 16" by simp
  also have "\<dots> \<le> x / 10 ^ 16" using assms by (intro divide_right_mono) simp_all
  finally have t: "1 / 2 ^ 1075 \<le> x / 10 ^ 16" .
  have "x / 2 ^ 53 \<le> x * (2 / 10 ^ 16)" using pos by simp
  with t e pos have "\<bar>y - x\<bar> \<le> x / 10 ^ 15" by simp
  then have "x - x / 10 ^ 15 \<le> y" "y \<le> x + x / 10 ^ 15" by linarith+
  moreover have "a - a / 10 ^ 15 \<le> x - x / 10 ^ 15" using assms(1) by simp
  moreover have "x + x / 10 ^ 15 \<le> b + b / 10 ^ 15" using assms(2) by simp
  ultimately have "lo \<le> y" "y \<le> hi" using assms(3,4) by linarith+
  with y that show thesis by blast
qed

lemma round_double_small:
  assumes "\<bar>x\<bar> \<le> b" "b + b / 10 ^ 15 \<le> hi" "1 / 10 ^ 100 \<le> b" "b \<le> 10 ^ 100"
  obtains y where "round_double x = Fin y" "\<bar>y\<bar> \<le> hi"
proof -
  have "\<bar>x\<bar> \<le> 10 ^ 100" using assms by simp
  also have "(10::real) ^ 100 \<le> 2 ^ 1023" by simp
  finally obtain y where y: "round_double x = Fin y"
    and e: "\<bar>y - x\<bar> \<le> \<bar>x\<bar> / 2 ^ 53 + 1 / 2 ^ 1075"
    using round_double_error by blast
  have "(1::real) / 2 ^ 1075 \<le> (1 / 10 ^ 100) / 10 ^ 16" by simp
  also have "\<dots> \<le> b / 10 ^ 16" using assms by (intro divide_right_mono) simp_all
  finally have t: "1 / 2 ^ 1075 \<le> b / 10 ^ 16" .
  have "\<bar>x\<bar> / 2 ^ 53 \<le> b / 2 ^ 53" using assms(1) by (simp add: divide_right_mono)
  also have "\<dots> \<le> b * (2 / 10 ^ 16)" using assms(3) by simp
  finally have "\<bar>y - x\<bar> \<le> b / 10 ^ 15" using t e by simp
  then have "\<bar>y\<bar> \<le> b + b / 10 ^ 15" using assms(1) by linarith
  with y that assms(2) show thesis by force
qed

lemma round_double_exact:
  assumes "2 ^ 52 \<le> \<bar>m\<bar>" "\<bar>m\<bar> < 2 ^ 53" "- 1022 \<le> k" "k \<le> 1023"
  shows "round_double (of_int m * 2 powr (of_int k - 52)) = Fin (of_int m * 2 powr (of_int k - 52))"
proof -
  define u :: real where "u = 2 powr of_int k / 2 ^ 52"
  define x :: real where "x = of_int m * u"
  have u: "0 < u" by (simp add: u_def)
  have q: "2 powr (of_int k - 52) = u" by (simp add: u_def powr_diff)
  have m0: "m \<noteq> 0" using assms(1) by auto
  then have x0: "x \<noteq> 0" using u by (simp add: x_def)
  have ax: "\<bar>x\<bar> = of_int \<bar>m\<bar> * u"
    using u by (simp add: x_def abs_mult)
  have pk: "2 powr of_int k = 2 ^ 52 * u" "2 powr (of_int k + 1) = 2 ^ 53 * u"
    by (simp_all add: u_def powr_add)
  have mb: "2 ^ 52 \<le> (of_int \<bar>m\<bar> :: real)" "(of_int \<bar>m\<bar> :: real) < 2 ^ 53"
    using assms(1,2) by (simp_all flip: of_int_abs)
  have lo: "2 powr of_int k \<le> \<bar>x\<bar>"
    unfolding pk ax using mb(1) u by (intro mult_right_mono) simp_all
  have hi: "\<bar>x\<bar> < 2 powr (of_int k + 1)"
    unfolding pk ax using mb(2) u by (intro mult_strict_right_mono) simp_all
  have fl: "\<lfloor>log 2 \<bar>x\<bar>\<rfloor> = k"
    using lo hi x0 by (subst floor_log_eq_powr_iff) simp_all
  have mx: "max k (- 1022) = k" using assms(3) by (rule max_absorb1)
  have d: "x / u = of_int m" using u by (simp add: x_def)
  have "\<bar>x\<bar> < 2 powr (of_int k + 1)" by (rule hi)
  also have "\<dots> \<le> 2 powr 1024" using assms(4) by (intro powr_mono) simp_all
  finally have "\<bar>x\<bar> < 2 ^ 1024" by simp
  then have "round_double x = Fin x"
    using x0 by (simp add: round_double_def Let_def fl mx q d) (simp add: x_def)
  then show ?thesis by (simp add: x_def q)
qed

lemma round_double_1 [simp]: "round_double 1 = Fin 1"
  using round_double_exact [of "2 ^ 52" 0] by (simp add: powr_neg_numeral)

lemma round_double_m1 [simp]: "round_double (- 1) = Fin (- 1)"
  using round_double_minus [of 1] by simp


lemma round_double_minus_Fin:
  "round_double x = Fin y \<Longrightarrow> round_double (- x) = Fin (- y)"
  by (simp add: round_double_minus)

section \<open>The algebra of the composition engine\<close>

lemmas App_arith = multiplyMatrices_def applyMatrix_def getIdentityMatrix_def
  Complex_new_App_def Complex_one_def Complex_zero_def add_def multiply_def num_sub_def

lemma operations_addGate [simp]:
  "operations (addGate P g n t s) = operations s @ [\<lparr>opid = n, gate = g, timestamp = t\<rparr>]"
  by (simp add: addGate_def Let_def)

lemma compositeMatrix_addGate [simp]:
  "compositeMatrix (addGate P g n t s) =
     multiplyMatrices Complex_new_App (GATES_App P g) (compositeMatrix s)"
  by (simp add: addGate_def Let_def)

lemma currentState_addGate [simp]:
  "currentState (addGate P g n t s) =
     applyMatrix Complex_new_App (GATES_App P g) (currentState s)"
  by (simp add: addGate_def Let_def)

lemma gate_product_snoc:
  "gate_product P (ops @ [op]) =
     multiplyMatrices Complex_new_App (GATES_App P (gate op)) (gate_product P ops)"
  by (simp add: gate_product_def)

text \<open>
  Append keeps the composite matrix equal to the product of the sequence: both multiply
  the same matrices in the same order, so this holds with the rounding of each step.
\<close>

lemma gate_product_initialApp: "compositeMatrix initialApp = gate_product P (operations initialApp)"
  by (simp add: initialApp_def gate_product_def)

lemma gate_product_addGate:
  "compositeMatrix s = gate_product P (operations s) \<Longrightarrow>
   compositeMatrix (addGate P g n t s) = gate_product P (operations (addGate P g n t s))"
  by (simp add: gate_product_snoc)

lemma gate_product_reset: "compositeMatrix (reset s) = gate_product P (operations (reset s))"
  by (simp add: reset_def Let_def gate_product_def)

lemma gate_product_append_all:
  "compositeMatrix s = gate_product P (operations s) \<Longrightarrow>
   compositeMatrix (append_all P ops s) = gate_product P (operations (append_all P ops s))"
  by (induction ops arbitrary: s) (simp_all add: gate_product_snoc)

text \<open>
  The loop of the removal multiplies the matrix of operation \<open>i\<close> on the left while
  \<open>i\<close> runs down from the last operation: the first operation ends leftmost, so the
  loop computes the product of the sequence read backwards.
\<close>

lemma removeOperation_loop_foldr:
  "k \<le> length ops \<Longrightarrow>
   removeOperation_loop P ops k m =
     foldr (\<lambda>op m. multiplyMatrices Complex_new_App (GATES_App P (gate op)) m) (take k ops) m"
proof (induction k arbitrary: m)
  case 0
  then show ?case by simp
next
  case (Suc k)
  then show ?case by (simp add: take_Suc_conv_app_nth)
qed

lemma operations_removeOperation:
  "operations (removeOperation P x s) = filter (\<lambda>op. opid op \<noteq> x) (operations s)"
  by (simp add: removeOperation_def Let_def)

lemma compositeMatrix_removeOperation:
  "compositeMatrix (removeOperation P x s) =
     gate_product P (rev (filter (\<lambda>op. opid op \<noteq> x) (operations s)))"
  by (simp add: removeOperation_def Let_def removeOperation_loop_foldr gate_product_def)




text \<open>
  C1. The claim: in every state reachable from the initial one by append, remove and
  reset, the composite matrix is the product of the gate matrices taken right to left,
  and the state vector is the composite matrix applied to (1, 0). The removal breaks
  it: after appending S, X and Z and removing the Z, the sequence is S, X, whose
  product right to left is X S, and the composite matrix recomputed by the removal is
  S X. The entries are 0, 1 and i, on which the arithmetic of doubles is exact.
\<close>

theorem removeOperation_breaks_gate_product:
  "reachable P (removeOperation P ''c''
      (addGate P Z ''c'' 2 (addGate P X ''b'' 1 (addGate P S ''a'' 0 initialApp)))) \<and>
   map gate (operations (removeOperation P ''c''
      (addGate P Z ''c'' 2 (addGate P X ''b'' 1 (addGate P S ''a'' 0 initialApp))))) = [S, X] \<and>
   compositeMatrix (removeOperation P ''c''
      (addGate P Z ''c'' 2 (addGate P X ''b'' 1 (addGate P S ''a'' 0 initialApp))))
     = ((\<lparr>re = Fin 0, im = Fin 0\<rparr>, \<lparr>re = Fin 1, im = Fin 0\<rparr>),
        (\<lparr>re = Fin 0, im = Fin 1\<rparr>, \<lparr>re = Fin 0, im = Fin 0\<rparr>)) \<and>
   gate_product P (operations (removeOperation P ''c''
      (addGate P Z ''c'' 2 (addGate P X ''b'' 1 (addGate P S ''a'' 0 initialApp)))))
     = ((\<lparr>re = Fin 0, im = Fin 0\<rparr>, \<lparr>re = Fin 0, im = Fin 1\<rparr>),
        (\<lparr>re = Fin 1, im = Fin 0\<rparr>, \<lparr>re = Fin 0, im = Fin 0\<rparr>)) \<and>
   \<not> composition_invariant P (removeOperation P ''c''
      (addGate P Z ''c'' 2 (addGate P X ''b'' 1 (addGate P S ''a'' 0 initialApp))))"
proof (intro conjI)
  show "reachable P (removeOperation P ''c''
      (addGate P Z ''c'' 2 (addGate P X ''b'' 1 (addGate P S ''a'' 0 initialApp))))"
    by (intro reachable.intros)
qed (simp_all add: composition_invariant_def compositeMatrix_removeOperation
      operations_removeOperation initialApp_def gate_product_def App_arith)

text \<open>
  C2. The claim: removing one operation of a sequence and recomputing gives the composite
  matrix of the shortened sequence built by repeated append. For the sequence S, Z, X
  and the removal of the Z in the middle, the recomputation gives S X and the repeated
  append gives X S.
\<close>

theorem removeOperation_differs_from_append_all:
  "compositeMatrix (removeOperation P ''b''
      (append_all P [\<lparr>opid = ''a'', gate = S, timestamp = 0\<rparr>,
                     \<lparr>opid = ''b'', gate = Z, timestamp = 1\<rparr>,
                     \<lparr>opid = ''c'', gate = X, timestamp = 2\<rparr>] initialApp))
     = ((\<lparr>re = Fin 0, im = Fin 0\<rparr>, \<lparr>re = Fin 1, im = Fin 0\<rparr>),
        (\<lparr>re = Fin 0, im = Fin 1\<rparr>, \<lparr>re = Fin 0, im = Fin 0\<rparr>)) \<and>
   compositeMatrix (append_all P [\<lparr>opid = ''a'', gate = S, timestamp = 0\<rparr>,
                                  \<lparr>opid = ''c'', gate = X, timestamp = 2\<rparr>] initialApp)
     = ((\<lparr>re = Fin 0, im = Fin 0\<rparr>, \<lparr>re = Fin 0, im = Fin 1\<rparr>),
        (\<lparr>re = Fin 1, im = Fin 0\<rparr>, \<lparr>re = Fin 0, im = Fin 0\<rparr>)) \<and>
   compositeMatrix (removeOperation P ''b''
      (append_all P [\<lparr>opid = ''a'', gate = S, timestamp = 0\<rparr>,
                     \<lparr>opid = ''b'', gate = Z, timestamp = 1\<rparr>,
                     \<lparr>opid = ''c'', gate = X, timestamp = 2\<rparr>] initialApp))
     \<noteq> compositeMatrix (append_all P [\<lparr>opid = ''a'', gate = S, timestamp = 0\<rparr>,
                                    \<lparr>opid = ''c'', gate = X, timestamp = 2\<rparr>] initialApp)"
  by (simp add: compositeMatrix_removeOperation gate_product_def initialApp_def App_arith)

section \<open>The history log\<close>

lemma saveToHistory_index:
  "historyIndex (saveToHistory ops st m s) =
     int (length (history (saveToHistory ops st m s))) - 1"
  by (simp add: saveToHistory_def Let_def)

lemma history_addGate:
  "history (addGate P g n t s) =
     (let newHistory = slice (history s) 0 (historyIndex s + 1) @
                         [snapshot (addGate P g n t s)]
      in if length newHistory > 100 then tl newHistory else newHistory)"
  by (simp add: addGate_def saveToHistory_def snapshot_def Let_def)

lemma historyIndex_addGate:
  "historyIndex (addGate P g n t s) = int (length (history (addGate P g n t s))) - 1"
  by (simp add: addGate_def Let_def saveToHistory_index)

lemma slice_0_take: "0 \<le> e \<Longrightarrow> slice xs 0 e = take (nat e) xs"
  by (auto simp: slice_def Let_def min_def)






text \<open>
  C8. For every log and pointer, after an undo that returns and an append, the pointer
  is at the last entry of the log, which is the prefix that the slice keeps (the entries
  up to the pointer) followed by the new snapshot, less the oldest entry beyond 100; so
  redo returns the state unchanged.
\<close>

theorem redo_after_undo_addGate:
  assumes "undo s = Inr s1"
  shows "redo (addGate P g n t s1) = Inr (addGate P g n t s1) \<and>
         historyIndex (addGate P g n t s1) = int (length (history (addGate P g n t s1))) - 1 \<and>
         history (addGate P g n t s1) =
           (let newHistory = slice (history s1) 0 (historyIndex s1 + 1) @
                               [snapshot (addGate P g n t s1)]
            in if length newHistory > 100 then tl newHistory else newHistory)"
  by (simp add: redo_def historyIndex_addGate history_addGate)

theorem redo_after_undo_addGate_witness:
  "\<exists>s1. undo (addGate fdlibm X ''b'' 1 (addGate fdlibm S ''a'' 0 initialApp)) = Inr s1 \<and>
        historyIndex s1 = 0 \<and> length (history s1) = 2 \<and>
        redo (addGate fdlibm Z ''c'' 2 s1) = Inr (addGate fdlibm Z ''c'' 2 s1) \<and>
        length (history (addGate fdlibm Z ''c'' 2 s1)) = 2"
proof -
  obtain s1 where u: "undo (addGate fdlibm X ''b'' 1 (addGate fdlibm S ''a'' 0 initialApp)) = Inr s1"
    and i: "historyIndex s1 = 0" and l: "length (history s1) = 2"
    by (simp add: undo_def addGate_def saveToHistory_def initialApp_def Let_def slice_def)
  from redo_after_undo_addGate [OF u, of fdlibm Z "''c''" 2] i l show ?thesis
    using u by (auto simp: slice_def Let_def)
qed













section \<open>Bounds on the rounded values\<close>

lemma round_double_abs:
  assumes "\<bar>x\<bar> \<le> 4"
  obtains y where "round_double x = Fin y" "\<bar>y - x\<bar> \<le> 1 / 10 ^ 15"
proof -
  have "\<bar>x\<bar> \<le> 2 ^ 1023" using assms by simp
  then obtain y where y: "round_double x = Fin y"
    and e: "\<bar>y - x\<bar> \<le> \<bar>x\<bar> / 2 ^ 53 + 1 / 2 ^ 1075"
    using round_double_error by blast
  have "\<bar>x\<bar> / 2 ^ 53 \<le> 4 / 2 ^ 53" using assms by (simp add: divide_right_mono)
  moreover have "(4::real) / 2 ^ 53 + 1 / 2 ^ 1075 \<le> 1 / 10 ^ 15" by simp
  ultimately have "\<bar>y - x\<bar> \<le> 1 / 10 ^ 15" using e by linarith
  with y that show thesis by blast
qed

lemma literal_1e_15_range:
  obtains E where "literal_1e_15 = Fin E" "9 / 10 ^ 16 \<le> E" "E \<le> 11 / 10 ^ 16"
proof -
  have "\<bar>1 / 10 ^ 15 :: real\<bar> \<le> 2 ^ 1023" by simp
  then obtain y where y: "round_double (1 / 10 ^ 15) = Fin y"
    and e: "\<bar>y - 1 / 10 ^ 15\<bar> \<le> \<bar>1 / 10 ^ 15 :: real\<bar> / 2 ^ 53 + 1 / 2 ^ 1075"
    using round_double_error by blast
  have "\<bar>1 / 10 ^ 15 :: real\<bar> / 2 ^ 53 + 1 / 2 ^ 1075 \<le> 1 / 10 ^ 16" by simp
  with e have "\<bar>y - 1 / 10 ^ 15\<bar> \<le> 1 / 10 ^ 16" by linarith
  then have "9 / 10 ^ 16 \<le> y" "y \<le> 11 / 10 ^ 16"
    unfolding abs_le_iff by simp_all
  with y that show thesis by (simp add: literal_1e_15_def)
qed

lemma literal_1e_12_range:
  obtains E where "literal_1e_12 = Fin E" "9 / 10 ^ 13 \<le> E" "E \<le> 11 / 10 ^ 13"
proof -
  have "\<bar>1 / 10 ^ 12 :: real\<bar> \<le> 2 ^ 1023" by simp
  then obtain y where y: "round_double (1 / 10 ^ 12) = Fin y"
    and e: "\<bar>y - 1 / 10 ^ 12\<bar> \<le> \<bar>1 / 10 ^ 12 :: real\<bar> / 2 ^ 53 + 1 / 2 ^ 1075"
    using round_double_error by blast
  have "\<bar>1 / 10 ^ 12 :: real\<bar> / 2 ^ 53 + 1 / 2 ^ 1075 \<le> 1 / 10 ^ 13" by simp
  with e have "\<bar>y - 1 / 10 ^ 12\<bar> \<le> 1 / 10 ^ 13" by linarith
  then have "9 / 10 ^ 13 \<le> y" "y \<le> 11 / 10 ^ 13"
    unfolding abs_le_iff by simp_all
  with y that show thesis by (simp add: literal_1e_12_def)
qed

lemma Complex_new_Fin:
  assumes "r = 0 \<or> 1 / 10 ^ 14 \<le> \<bar>r\<bar>" "i = 0 \<or> 1 / 10 ^ 14 \<le> \<bar>i\<bar>"
  shows "Complex_new (Fin r) (Fin i) = \<lparr>re = Fin r, im = Fin i\<rparr>"
proof -
  obtain E where E: "literal_1e_15 = Fin E" "9 / 10 ^ 16 \<le> E" "E \<le> 11 / 10 ^ 16"
    by (rule literal_1e_15_range)
  have "(if \<bar>r\<bar> < E then Fin 0 else Fin r) = Fin r"
    using assms(1) E(2,3) by auto
  moreover have "(if \<bar>i\<bar> < E then Fin 0 else Fin i) = Fin i"
    using assms(2) E(2,3) by auto
  ultimately show ?thesis by (simp add: Complex_new_def E(1))
qed

lemma Complex_new_units:
  "Complex_new (Fin 0) (Fin 0) = \<lparr>re = Fin 0, im = Fin 0\<rparr>"
  "Complex_new (Fin 1) (Fin 0) = \<lparr>re = Fin 1, im = Fin 0\<rparr>"
  "Complex_new (Fin (- 1)) (Fin 0) = \<lparr>re = Fin (- 1), im = Fin 0\<rparr>"
  "Complex_new (Fin 0) (Fin 1) = \<lparr>re = Fin 0, im = Fin 1\<rparr>"
  "Complex_new (Fin 0) (Fin (- 1)) = \<lparr>re = Fin 0, im = Fin (- 1)\<rparr>"
  by (rule Complex_new_Fin; simp)+

lemma equals_tolerance:
  assumes "\<bar>a - b\<bar> \<le> 8 / 10 ^ 13" "\<bar>c - d\<bar> \<le> 8 / 10 ^ 13"
  shows "equals \<lparr>re = Fin a, im = Fin c\<rparr> \<lparr>re = Fin b, im = Fin d\<rparr> literal_1e_12"
proof -
  obtain E where E: "literal_1e_12 = Fin E" "9 / 10 ^ 13 \<le> E" "E \<le> 11 / 10 ^ 13"
    by (rule literal_1e_12_range)
  obtain x where x: "round_double (a - b) = Fin x" "\<bar>x - (a - b)\<bar> \<le> 1 / 10 ^ 15"
    using assms(1) by (auto intro: round_double_abs [of "a - b"])
  obtain y where y: "round_double (c - d) = Fin y" "\<bar>y - (c - d)\<bar> \<le> 1 / 10 ^ 15"
    using assms(2) by (auto intro: round_double_abs [of "c - d"])
  have "\<bar>x\<bar> < E"
    using x(2) assms(1) E(2) unfolding abs_le_iff abs_less_iff by simp
  moreover have "\<bar>y\<bar> < E"
    using y(2) assms(2) E(2) unfolding abs_le_iff abs_less_iff by simp
  ultimately show ?thesis
    by (simp add: equals_def num_sub_def E(1) x(1) y(1))
qed

lemma sqrt2_range: "1414213562373095 / 10 ^ 15 \<le> sqrt 2" "sqrt 2 \<le> 1414213562373096 / 10 ^ 15"
  by (rule real_le_rsqrt, simp add: power2_eq_square) (rule real_le_lsqrt, simp_all add: power2_eq_square)

lemma SQRT2_range:
  obtains s where "SQRT2 = Fin s" "1414213562373094 / 10 ^ 15 \<le> s"
    "s \<le> 1414213562373097 / 10 ^ 15"
proof -
  have "\<bar>sqrt 2\<bar> \<le> 4" using sqrt2_range by simp
  then obtain s where s: "round_double (sqrt 2) = Fin s" "\<bar>s - sqrt 2\<bar> \<le> 1 / 10 ^ 15"
    by (rule round_double_abs)
  have "1414213562373094 / 10 ^ 15 \<le> s" "s \<le> 1414213562373097 / 10 ^ 15"
    using s(2) sqrt2_range unfolding abs_le_iff by simp_all
  with s(1) that show thesis by (simp add: SQRT2_def)
qed

lemma SQRT2_INV_range:
  obtains h where "SQRT2_INV = Fin h" "707106781186545 / 10 ^ 15 \<le> h"
    "h \<le> 707106781186550 / 10 ^ 15"
proof -
  obtain s where s: "SQRT2 = Fin s" "1414213562373094 / 10 ^ 15 \<le> s"
    "s \<le> 1414213562373097 / 10 ^ 15"
    by (rule SQRT2_range)
  have pos: "0 < s" using s(2) by simp
  have lo: "707106781186546 / 10 ^ 15 \<le> 1 / s"
    using pos s(3) by (simp add: field_simps)
  have hi: "1 / s \<le> 707106781186549 / 10 ^ 15"
    using pos s(2) by (simp add: field_simps)
  have "\<bar>1 / s\<bar> \<le> 4" using lo hi by simp
  then obtain h where h: "round_double (1 / s) = Fin h" "\<bar>h - 1 / s\<bar> \<le> 1 / 10 ^ 15"
    by (rule round_double_abs)
  have "707106781186545 / 10 ^ 15 \<le> h" "h \<le> 707106781186550 / 10 ^ 15"
    using h(2) lo hi unfolding abs_le_iff by simp_all
  with h(1) pos that show thesis by (simp add: SQRT2_INV_def s(1))
qed

lemma square_range:
  fixes h :: real
  assumes "707106781186545 / 10 ^ 15 \<le> h" "h \<le> 707106781186550 / 10 ^ 15"
  shows "499999999999996 / 10 ^ 15 \<le> h * h" "h * h \<le> 500000000000004 / 10 ^ 15"
proof -
  have "(707106781186545 / 10 ^ 15) * (707106781186545 / 10 ^ 15) \<le> h * h"
    using assms by (intro mult_mono) simp_all
  then show "499999999999996 / 10 ^ 15 \<le> h * h" by simp
  have "h * h \<le> (707106781186550 / 10 ^ 15) * (707106781186550 / 10 ^ 15)"
    using assms by (intro mult_mono) simp_all
  then show "h * h \<le> 500000000000004 / 10 ^ 15" by simp
qed

text \<open>The matrix of the Hadamard gate for an entry h near 1 / sqrt 2.\<close>

lemma Hadamard_square:
  assumes "707106781186545 / 10 ^ 15 \<le> h" "h \<le> 707106781186550 / 10 ^ 15"
  obtains z where
    "multiplyMatrices Complex_new
       ((\<lparr>re = Fin h, im = Fin 0\<rparr>, \<lparr>re = Fin h, im = Fin 0\<rparr>),
        (\<lparr>re = Fin h, im = Fin 0\<rparr>, \<lparr>re = Fin (- h), im = Fin 0\<rparr>))
       ((\<lparr>re = Fin h, im = Fin 0\<rparr>, \<lparr>re = Fin h, im = Fin 0\<rparr>),
        (\<lparr>re = Fin h, im = Fin 0\<rparr>, \<lparr>re = Fin (- h), im = Fin 0\<rparr>)) =
     ((\<lparr>re = Fin z, im = Fin 0\<rparr>, \<lparr>re = Fin 0, im = Fin 0\<rparr>),
      (\<lparr>re = Fin 0, im = Fin 0\<rparr>, \<lparr>re = Fin z, im = Fin 0\<rparr>))"
    "\<bar>z - 1\<bar> \<le> 1 / 10 ^ 13"
proof -
  note hh = square_range [OF assms]
  have "\<bar>h * h\<bar> \<le> 4" using hh by simp
  then obtain v where v: "round_double (h * h) = Fin v" "\<bar>v - h * h\<bar> \<le> 1 / 10 ^ 15"
    by (rule round_double_abs)
  have "\<bar>v\<bar> \<le> 4" using v(2) hh unfolding abs_le_iff by simp
  then obtain w where w: "round_double v = Fin w" "\<bar>w - v\<bar> \<le> 1 / 10 ^ 15"
    by (rule round_double_abs)
  have "\<bar>2 * w\<bar> \<le> 4" using w(2) v(2) hh unfolding abs_le_iff by simp
  then obtain z where z: "round_double (2 * w) = Fin z" "\<bar>z - 2 * w\<bar> \<le> 1 / 10 ^ 15"
    by (rule round_double_abs)
  have wr: "49 / 100 \<le> w" "w \<le> 51 / 100"
    using w(2) v(2) hh unfolding abs_le_iff by simp_all
  have zr: "\<bar>z - 1\<bar> \<le> 1 / 10 ^ 13"
    using z(2) w(2) v(2) hh unfolding abs_le_iff by simp
  have cw: "Complex_new (Fin w) (Fin 0) = \<lparr>re = Fin w, im = Fin 0\<rparr>"
    "Complex_new (Fin (- w)) (Fin 0) = \<lparr>re = Fin (- w), im = Fin 0\<rparr>"
    using wr by (intro Complex_new_Fin; simp)+
  have "99 / 100 \<le> z" using zr unfolding abs_le_iff by simp
  then have cz: "Complex_new (Fin z) (Fin 0) = \<lparr>re = Fin z, im = Fin 0\<rparr>"
    by (intro Complex_new_Fin) simp_all
  have vm: "round_double (- (h * h)) = Fin (- v)" "round_double (- v) = Fin (- w)"
    using v(1) w(1) by (simp_all add: round_double_minus)
  have "multiplyMatrices Complex_new
       ((\<lparr>re = Fin h, im = Fin 0\<rparr>, \<lparr>re = Fin h, im = Fin 0\<rparr>),
        (\<lparr>re = Fin h, im = Fin 0\<rparr>, \<lparr>re = Fin (- h), im = Fin 0\<rparr>))
       ((\<lparr>re = Fin h, im = Fin 0\<rparr>, \<lparr>re = Fin h, im = Fin 0\<rparr>),
        (\<lparr>re = Fin h, im = Fin 0\<rparr>, \<lparr>re = Fin (- h), im = Fin 0\<rparr>)) =
     ((\<lparr>re = Fin z, im = Fin 0\<rparr>, \<lparr>re = Fin 0, im = Fin 0\<rparr>),
      (\<lparr>re = Fin 0, im = Fin 0\<rparr>, \<lparr>re = Fin z, im = Fin 0\<rparr>))"
    by (simp add: multiplyMatrices_def multiply_def add_def num_sub_def
        v(1) w(1) z(1) vm cw cz Complex_new_units)
  with zr that show thesis by blast
qed

section \<open>The gates of the kernel module\<close>

lemma GATES_H:
  obtains h where
    "GATES P H = ((\<lparr>re = Fin h, im = Fin 0\<rparr>, \<lparr>re = Fin h, im = Fin 0\<rparr>),
                  (\<lparr>re = Fin h, im = Fin 0\<rparr>, \<lparr>re = Fin (- h), im = Fin 0\<rparr>))"
    "707106781186545 / 10 ^ 15 \<le> h" "h \<le> 707106781186550 / 10 ^ 15"
proof -
  obtain h where h: "SQRT2_INV = Fin h" "707106781186545 / 10 ^ 15 \<le> h"
    "h \<le> 707106781186550 / 10 ^ 15"
    by (rule SQRT2_INV_range)
  have "Complex_new (Fin h) (Fin 0) = \<lparr>re = Fin h, im = Fin 0\<rparr>"
    "Complex_new (Fin (- h)) (Fin 0) = \<lparr>re = Fin (- h), im = Fin 0\<rparr>"
    using h(2) by (intro Complex_new_Fin; simp)+
  then have "GATES P H = ((\<lparr>re = Fin h, im = Fin 0\<rparr>, \<lparr>re = Fin h, im = Fin 0\<rparr>),
                  (\<lparr>re = Fin h, im = Fin 0\<rparr>, \<lparr>re = Fin (- h), im = Fin 0\<rparr>))"
    by (simp add: h(1))
  with h(2,3) that show thesis by blast
qed

lemma GATES_units:
  "GATES P X = ((\<lparr>re = Fin 0, im = Fin 0\<rparr>, \<lparr>re = Fin 1, im = Fin 0\<rparr>),
                (\<lparr>re = Fin 1, im = Fin 0\<rparr>, \<lparr>re = Fin 0, im = Fin 0\<rparr>))"
  "GATES P Y = ((\<lparr>re = Fin 0, im = Fin 0\<rparr>, \<lparr>re = Fin 0, im = Fin (- 1)\<rparr>),
                (\<lparr>re = Fin 0, im = Fin 1\<rparr>, \<lparr>re = Fin 0, im = Fin 0\<rparr>))"
  "GATES P Z = ((\<lparr>re = Fin 1, im = Fin 0\<rparr>, \<lparr>re = Fin 0, im = Fin 0\<rparr>),
                (\<lparr>re = Fin 0, im = Fin 0\<rparr>, \<lparr>re = Fin (- 1), im = Fin 0\<rparr>))"
  "GATES P S = ((\<lparr>re = Fin 1, im = Fin 0\<rparr>, \<lparr>re = Fin 0, im = Fin 0\<rparr>),
                (\<lparr>re = Fin 0, im = Fin 0\<rparr>, \<lparr>re = Fin 0, im = Fin 1\<rparr>))"
  "GATES P S_dagger = ((\<lparr>re = Fin 1, im = Fin 0\<rparr>, \<lparr>re = Fin 0, im = Fin 0\<rparr>),
                       (\<lparr>re = Fin 0, im = Fin 0\<rparr>, \<lparr>re = Fin 0, im = Fin (- 1)\<rparr>))"
  by (simp_all add: Complex_one_def Complex_zero_def Complex_i_def Complex_new_units)

lemma identity_kernel:
  "getIdentityMatrix Complex_new =
     ((\<lparr>re = Fin 1, im = Fin 0\<rparr>, \<lparr>re = Fin 0, im = Fin 0\<rparr>),
      (\<lparr>re = Fin 0, im = Fin 0\<rparr>, \<lparr>re = Fin 1, im = Fin 0\<rparr>))"
  by (simp add: getIdentityMatrix_def Complex_one_def Complex_zero_def Complex_new_units)

lemma matrix_equals_diagonal:
  assumes "\<bar>a - 1\<bar> \<le> 8 / 10 ^ 13" "\<bar>b - 1\<bar> \<le> 8 / 10 ^ 13"
  shows "matrix_equals
           ((\<lparr>re = Fin a, im = Fin 0\<rparr>, \<lparr>re = Fin 0, im = Fin 0\<rparr>),
            (\<lparr>re = Fin 0, im = Fin 0\<rparr>, \<lparr>re = Fin b, im = Fin 0\<rparr>))
           (getIdentityMatrix Complex_new) literal_1e_12"
  using assms by (simp add: matrix_equals_def identity_kernel equals_tolerance)

lemma square_units:
  "multiplyMatrices Complex_new (GATES P X) (GATES P X) = getIdentityMatrix Complex_new"
  "multiplyMatrices Complex_new (GATES P Y) (GATES P Y) = getIdentityMatrix Complex_new"
  "multiplyMatrices Complex_new (GATES P Z) (GATES P Z) = getIdentityMatrix Complex_new"
  unfolding GATES_units identity_kernel
  by (simp_all add: multiplyMatrices_def multiply_def add_def num_sub_def Complex_new_units)

text \<open>
  C5. For H, X, Y and Z, the product of the gate's matrix with itself has each entry
  within \<^verbatim>\<open>1e-12\<close> of the identity's, with the rounding of every operation: for
  X, Y and Z the product is the identity, for H its diagonal entries are rounded sums
  of two rounded squares.
\<close>

theorem self_inverse_gates:
  "matrix_equals (multiplyMatrices Complex_new (GATES P H) (GATES P H))
     (getIdentityMatrix Complex_new) literal_1e_12 \<and>
   matrix_equals (multiplyMatrices Complex_new (GATES P X) (GATES P X))
     (getIdentityMatrix Complex_new) literal_1e_12 \<and>
   matrix_equals (multiplyMatrices Complex_new (GATES P Y) (GATES P Y))
     (getIdentityMatrix Complex_new) literal_1e_12 \<and>
   matrix_equals (multiplyMatrices Complex_new (GATES P Z) (GATES P Z))
     (getIdentityMatrix Complex_new) literal_1e_12"
proof -
  obtain h where h: "GATES P H =
      ((\<lparr>re = Fin h, im = Fin 0\<rparr>, \<lparr>re = Fin h, im = Fin 0\<rparr>),
       (\<lparr>re = Fin h, im = Fin 0\<rparr>, \<lparr>re = Fin (- h), im = Fin 0\<rparr>))"
    "707106781186545 / 10 ^ 15 \<le> h" "h \<le> 707106781186550 / 10 ^ 15"
    by (rule GATES_H)
  obtain z where z: "multiplyMatrices Complex_new (GATES P H) (GATES P H) =
     ((\<lparr>re = Fin z, im = Fin 0\<rparr>, \<lparr>re = Fin 0, im = Fin 0\<rparr>),
      (\<lparr>re = Fin 0, im = Fin 0\<rparr>, \<lparr>re = Fin z, im = Fin 0\<rparr>))"
    "\<bar>z - 1\<bar> \<le> 1 / 10 ^ 13"
    unfolding h(1) by (rule Hadamard_square [OF h(2,3)])
  have "\<bar>z - 1\<bar> \<le> 8 / 10 ^ 13" using z(2) by simp
  then have hh: "matrix_equals (multiplyMatrices Complex_new (GATES P H) (GATES P H))
     (getIdentityMatrix Complex_new) literal_1e_12"
    unfolding z(1) by (intro matrix_equals_diagonal)
  have "matrix_equals (getIdentityMatrix Complex_new) (getIdentityMatrix Complex_new)
          literal_1e_12"
    unfolding identity_kernel [of ] 
    using matrix_equals_diagonal [of 1 1] by (simp add: identity_kernel)
  with hh show ?thesis by (simp only: square_units simp_thms)
qed

lemma isUnitary_matrix_equals:
  "isUnitary ((m00, m01), (m10, m11)) tolerance =
     matrix_equals
       (multiplyMatrices Complex_new
          ((conjugate Complex_new m00, conjugate Complex_new m10),
           (conjugate Complex_new m01, conjugate Complex_new m11))
          ((m00, m01), (m10, m11)))
       (getIdentityMatrix Complex_new) tolerance"
  by (simp add: isUnitary_def matrix_equals_def Let_def)

lemma isUnitary_H: "isUnitary (GATES P H) literal_1e_12"
proof -
  obtain h where h: "GATES P H =
      ((\<lparr>re = Fin h, im = Fin 0\<rparr>, \<lparr>re = Fin h, im = Fin 0\<rparr>),
       (\<lparr>re = Fin h, im = Fin 0\<rparr>, \<lparr>re = Fin (- h), im = Fin 0\<rparr>))"
    "707106781186545 / 10 ^ 15 \<le> h" "h \<le> 707106781186550 / 10 ^ 15"
    by (rule GATES_H)
  have c: "conjugate Complex_new \<lparr>re = Fin h, im = Fin 0\<rparr> = \<lparr>re = Fin h, im = Fin 0\<rparr>"
    "conjugate Complex_new \<lparr>re = Fin (- h), im = Fin 0\<rparr> = \<lparr>re = Fin (- h), im = Fin 0\<rparr>"
    using h(2) by (simp_all add: conjugate_def Complex_new_Fin)
  obtain z where z: "multiplyMatrices Complex_new
       ((\<lparr>re = Fin h, im = Fin 0\<rparr>, \<lparr>re = Fin h, im = Fin 0\<rparr>),
        (\<lparr>re = Fin h, im = Fin 0\<rparr>, \<lparr>re = Fin (- h), im = Fin 0\<rparr>))
       ((\<lparr>re = Fin h, im = Fin 0\<rparr>, \<lparr>re = Fin h, im = Fin 0\<rparr>),
        (\<lparr>re = Fin h, im = Fin 0\<rparr>, \<lparr>re = Fin (- h), im = Fin 0\<rparr>)) =
     ((\<lparr>re = Fin z, im = Fin 0\<rparr>, \<lparr>re = Fin 0, im = Fin 0\<rparr>),
      (\<lparr>re = Fin 0, im = Fin 0\<rparr>, \<lparr>re = Fin z, im = Fin 0\<rparr>))"
    "\<bar>z - 1\<bar> \<le> 1 / 10 ^ 13"
    by (rule Hadamard_square [OF h(2,3)])
  have "\<bar>z - 1\<bar> \<le> 8 / 10 ^ 13" using z(2) by simp
  then show ?thesis
    unfolding h(1) isUnitary_matrix_equals c z(1) by (intro matrix_equals_diagonal)
qed

lemma isUnitary_X: "isUnitary (GATES P X) literal_1e_12"
  unfolding GATES_units isUnitary_matrix_equals
  using matrix_equals_diagonal [of 1 1]
  by (simp add: conjugate_def multiplyMatrices_def multiply_def add_def num_sub_def
      Complex_new_units)

lemma isUnitary_Y: "isUnitary (GATES P Y) literal_1e_12"
  unfolding GATES_units isUnitary_matrix_equals
  using matrix_equals_diagonal [of 1 1]
  by (simp add: conjugate_def multiplyMatrices_def multiply_def add_def num_sub_def
      Complex_new_units)

text \<open>
  The gates Z, S, T and their adjoints have the matrix of the identity with a complex
  number (c, s) of modulus 1 in the last entry.
\<close>

lemma isUnitary_phase:
  assumes c: "c = 0 \<or> 1 / 10 ^ 14 \<le> \<bar>c\<bar>" and s: "s = 0 \<or> 1 / 10 ^ 14 \<le> \<bar>s\<bar>"
    and n: "\<bar>c * c + s * s - 1\<bar> \<le> 7 / 10 ^ 13"
  shows "isUnitary ((\<lparr>re = Fin 1, im = Fin 0\<rparr>, \<lparr>re = Fin 0, im = Fin 0\<rparr>),
                    (\<lparr>re = Fin 0, im = Fin 0\<rparr>, \<lparr>re = Fin c, im = Fin s\<rparr>)) literal_1e_12"
proof -
  define a b where "a = c * c" and "b = s * s"
  have ab: "0 \<le> a" "0 \<le> b" by (simp_all add: a_def b_def)
  have n': "\<bar>a + b - 1\<bar> \<le> 7 / 10 ^ 13" using n by (simp add: a_def b_def)
  have "\<bar>a\<bar> \<le> 4" "\<bar>b\<bar> \<le> 4" using n' ab unfolding abs_le_iff by simp_all
  then have "\<bar>c * c\<bar> \<le> 4" "\<bar>s * s\<bar> \<le> 4" by (simp_all add: a_def b_def)
  then obtain vc vs where vc: "round_double (c * c) = Fin vc" "\<bar>vc - c * c\<bar> \<le> 1 / 10 ^ 15"
    and vs: "round_double (s * s) = Fin vs" "\<bar>vs - s * s\<bar> \<le> 1 / 10 ^ 15"
    using round_double_abs [of "c * c"] round_double_abs [of "s * s"] by metis
  have "\<bar>vc + vs\<bar> \<le> 4" using n vc(2) vs(2) unfolding abs_le_iff by simp
  then obtain r1 where r1: "round_double (vc + vs) = Fin r1" "\<bar>r1 - (vc + vs)\<bar> \<le> 1 / 10 ^ 15"
    by (rule round_double_abs)
  have "\<bar>r1\<bar> \<le> 4" using n vc(2) vs(2) r1(2) unfolding abs_le_iff by simp
  then obtain r2 where r2: "round_double r1 = Fin r2" "\<bar>r2 - r1\<bar> \<le> 1 / 10 ^ 15"
    by (rule round_double_abs)
  have "\<bar>c * s\<bar> \<le> 4"
  proof -
    have "0 \<le> (\<bar>c\<bar> - \<bar>s\<bar>) * (\<bar>c\<bar> - \<bar>s\<bar>)" by simp
    then have "2 * (\<bar>c\<bar> * \<bar>s\<bar>) \<le> a + b"
      by (simp add: algebra_simps a_def b_def)
    then have "2 * \<bar>c * s\<bar> \<le> a + b" by (simp add: abs_mult)
    moreover have "a + b \<le> 2" using n' unfolding abs_le_iff by simp
    ultimately show ?thesis by linarith
  qed
  then obtain x where x: "round_double (c * s) = Fin x" "\<bar>x - c * s\<bar> \<le> 1 / 10 ^ 15"
    by (rule round_double_abs)
  have x': "round_double (s * c) = Fin x" using x(1) by (simp add: mult.commute)
  have m: "round_double (- (s * s)) = Fin (- vs)" "round_double (- (s * c)) = Fin (- x)"
    "round_double (- (c * s)) = Fin (- x)"
    using vs(1) x(1) x' by (simp_all add: round_double_minus)
  have r1b: "99 / 100 \<le> r1" using n vc(2) vs(2) r1(2) unfolding abs_le_iff by simp
  have r2b: "\<bar>r2 - 1\<bar> \<le> 8 / 10 ^ 13"
    using n vc(2) vs(2) r1(2) r2(2) unfolding abs_le_iff by simp
  have k: "Complex_new (Fin c) (Fin (- s)) = \<lparr>re = Fin c, im = Fin (- s)\<rparr>"
    using c s by (intro Complex_new_Fin) simp_all
  have k1: "Complex_new (Fin r1) (Fin 0) = \<lparr>re = Fin r1, im = Fin 0\<rparr>"
    using r1b by (intro Complex_new_Fin) simp_all
  have "99 / 100 \<le> r2" using r2b unfolding abs_le_iff by simp
  then have k2: "Complex_new (Fin r2) (Fin 0) = \<lparr>re = Fin r2, im = Fin 0\<rparr>"
    by (intro Complex_new_Fin) simp_all
  have "multiplyMatrices Complex_new
          ((conjugate Complex_new \<lparr>re = Fin 1, im = Fin 0\<rparr>,
            conjugate Complex_new \<lparr>re = Fin 0, im = Fin 0\<rparr>),
           (conjugate Complex_new \<lparr>re = Fin 0, im = Fin 0\<rparr>,
            conjugate Complex_new \<lparr>re = Fin c, im = Fin s\<rparr>))
          ((\<lparr>re = Fin 1, im = Fin 0\<rparr>, \<lparr>re = Fin 0, im = Fin 0\<rparr>),
           (\<lparr>re = Fin 0, im = Fin 0\<rparr>, \<lparr>re = Fin c, im = Fin s\<rparr>)) =
        ((\<lparr>re = Fin 1, im = Fin 0\<rparr>, \<lparr>re = Fin 0, im = Fin 0\<rparr>),
         (\<lparr>re = Fin 0, im = Fin 0\<rparr>, \<lparr>re = Fin r2, im = Fin 0\<rparr>))"
    by (simp add: conjugate_def multiplyMatrices_def multiply_def add_def num_sub_def
        Complex_new_units k k1 k2 vc(1) vs(1) r1(1) r2(1) x(1) x' m)
  moreover have "\<bar>(1::real) - 1\<bar> \<le> 8 / 10 ^ 13" by simp
  ultimately show ?thesis
    unfolding isUnitary_matrix_equals using r2b by (simp only: matrix_equals_diagonal)
qed

lemma isUnitary_units:
  "isUnitary (GATES P Z) literal_1e_12"
  "isUnitary (GATES P S) literal_1e_12"
  "isUnitary (GATES P S_dagger) literal_1e_12"
  unfolding GATES_units by (rule isUnitary_phase; simp)+

lemma isUnitary_fromPolar:
  assumes c0: "Math_cos P ph = Fin c0" "7071067811865 / 10 ^ 13 \<le> c0"
      "c0 \<le> 7071067811866 / 10 ^ 13"
    and s0: "Math_sin P ph = Fin s0" "7071067811865 / 10 ^ 13 \<le> \<bar>s0\<bar>"
      "\<bar>s0\<bar> \<le> 7071067811866 / 10 ^ 13"
  shows "isUnitary ((\<lparr>re = Fin 1, im = Fin 0\<rparr>, \<lparr>re = Fin 0, im = Fin 0\<rparr>),
                    (\<lparr>re = Fin 0, im = Fin 0\<rparr>,
                     Complex_fromPolar P Complex_new (Fin 1) ph)) literal_1e_12"
proof -
  have "\<bar>c0\<bar> \<le> 4" "\<bar>s0\<bar> \<le> 4" using c0(2,3) s0(3) by simp_all
  then obtain c s where c: "round_double c0 = Fin c" "\<bar>c - c0\<bar> \<le> 1 / 10 ^ 15"
    and s: "round_double s0 = Fin s" "\<bar>s - s0\<bar> \<le> 1 / 10 ^ 15"
    using round_double_abs [of c0] round_double_abs [of s0] by metis
  define a b where "a = \<bar>c\<bar>" and "b = \<bar>s\<bar>"
  have pw: "(10::real) ^ 13 = 10000000000000" "(10::real) ^ 15 = 1000000000000000"
    by simp_all
  have ar: "7071067811864 / 10 ^ 13 \<le> a" "a \<le> 7071067811867 / 10 ^ 13"
    using c(2) c0(2,3) unfolding a_def pw by linarith+
  have br: "7071067811864 / 10 ^ 13 \<le> b" "b \<le> 7071067811867 / 10 ^ 13"
    using s(2) s0(2,3) unfolding b_def pw by linarith+
  have sq: "4999999999997 / 10 ^ 13 \<le> t * t \<and> t * t \<le> 5000000000003 / 10 ^ 13"
    if "7071067811864 / 10 ^ 13 \<le> t" "t \<le> 7071067811867 / 10 ^ 13" for t :: real
  proof -
    have "(7071067811864 / 10 ^ 13) * (7071067811864 / 10 ^ 13) \<le> t * t"
      using that by (intro mult_mono) simp_all
    moreover have "t * t \<le> (7071067811867 / 10 ^ 13) * (7071067811867 / 10 ^ 13)"
      using that by (intro mult_mono) simp_all
    ultimately show ?thesis by simp
  qed
  have cc: "c * c = a * a" and ss: "s * s = b * b" by (simp_all add: a_def b_def)
  define u v where "u = a * a" and "v = b * b"
  have "4999999999997 / 10 ^ 13 \<le> u \<and> u \<le> 5000000000003 / 10 ^ 13"
    "4999999999997 / 10 ^ 13 \<le> v \<and> v \<le> 5000000000003 / 10 ^ 13"
    using sq [OF ar] sq [OF br] by (simp_all add: u_def v_def)
  then have "\<bar>u + v - 1\<bar> \<le> 7 / 10 ^ 13" unfolding abs_le_iff by simp
  then have n: "\<bar>c * c + s * s - 1\<bar> \<le> 7 / 10 ^ 13" by (simp add: cc ss u_def v_def)
  have ck: "c = 0 \<or> 1 / 10 ^ 14 \<le> \<bar>c\<bar>" "s = 0 \<or> 1 / 10 ^ 14 \<le> \<bar>s\<bar>"
    using ar(1) br(1) by (simp_all add: a_def b_def)
  have "Complex_fromPolar P Complex_new (Fin 1) ph = \<lparr>re = Fin c, im = Fin s\<rparr>"
    using ck by (simp add: Complex_fromPolar_def c0(1) s0(1) c(1) s(1) Complex_new_Fin)
  then show ?thesis using isUnitary_phase [OF ck n] by simp
qed

lemma isUnitary_T:
  assumes "accurate_at_PI_4 P"
  shows "isUnitary (GATES P T) literal_1e_12" "isUnitary (GATES P T_dagger) literal_1e_12"
proof -
  from assms obtain c s c' s' where
    c: "Math_cos P PI_4 = Fin c" "7071067811865 / 10 ^ 13 \<le> c" "c \<le> 7071067811866 / 10 ^ 13"
    and s: "Math_sin P PI_4 = Fin s" "7071067811865 / 10 ^ 13 \<le> s" "s \<le> 7071067811866 / 10 ^ 13"
    and c': "Math_cos P (num_neg PI_4) = Fin c'" "7071067811865 / 10 ^ 13 \<le> c'"
      "c' \<le> 7071067811866 / 10 ^ 13"
    and s': "Math_sin P (num_neg PI_4) = Fin s'" "- (7071067811866 / 10 ^ 13) \<le> s'"
      "s' \<le> - (7071067811865 / 10 ^ 13)"
    unfolding accurate_at_PI_4_def in_range_def by blast
  have "7071067811865 / 10 ^ 13 \<le> \<bar>s\<bar>" "\<bar>s\<bar> \<le> 7071067811866 / 10 ^ 13"
    using s(2,3) by simp_all
  from isUnitary_fromPolar [OF c s(1) this]
  show "isUnitary (GATES P T) literal_1e_12"
    by (simp add: Complex_one_def Complex_zero_def Complex_new_units)
  have "7071067811865 / 10 ^ 13 \<le> \<bar>s'\<bar>" "\<bar>s'\<bar> \<le> 7071067811866 / 10 ^ 13"
    using s'(2,3) by simp_all
  from isUnitary_fromPolar [OF c' s'(1) this]
  show "isUnitary (GATES P T_dagger) literal_1e_12"
    by (simp add: Complex_one_def Complex_zero_def Complex_new_units)
qed

text \<open>
  C4. For each of the eight gates of the registry, \<^verbatim>\<open>isUnitary\<close> of its matrix with
  the tolerance \<^verbatim>\<open>1e-12\<close> is true, on every platform whose cosine and sine are right
  to 13 decimal places at the two arguments of the T gates.
\<close>

theorem GATES_isUnitary:
  assumes "accurate_at_PI_4 P"
  shows "isUnitary (GATES P g) literal_1e_12"
  by (cases g)
    (simp_all only: isUnitary_H isUnitary_X isUnitary_Y isUnitary_units isUnitary_T [OF assms])

lemma PI_4_positive: obtains p where "PI_4 = Fin p" "0 < p"
proof -
  have "\<bar>pi\<bar> \<le> 4" using pi_less_4 pi_gt_zero by simp
  then obtain q where q: "round_double pi = Fin q" "\<bar>q - pi\<bar> \<le> 1 / 10 ^ 15"
    by (rule round_double_abs)
  have qr: "1 \<le> q" "q \<le> 5" using q(2) pi_ge_two pi_less_4 unfolding abs_le_iff by simp_all
  then have "\<bar>q / 4\<bar> \<le> 4" by simp
  then obtain p where p: "round_double (q / 4) = Fin p" "\<bar>p - q / 4\<bar> \<le> 1 / 10 ^ 15"
    by (rule round_double_abs)
  have "0 < p" using p(2) qr unfolding abs_le_iff by simp
  moreover have "PI_4 = Fin p" by (simp add: PI_4_def Math_PI_def q(1) p(1))
  ultimately show thesis using that by blast
qed

lemma in_range_Fin: "a \<le> y \<Longrightarrow> y \<le> b \<Longrightarrow> in_range (Fin y) a b"
  by (simp add: in_range_def)

lemma accurate_fdlibm: "accurate_at_PI_4 fdlibm"
proof -
  obtain p where p: "PI_4 = Fin p" "0 < p" by (rule PI_4_positive)
  have ne: "num_neg PI_4 \<noteq> PI_4" using p(2) by (simp add: p(1))
  have v: "Math_cos fdlibm PI_4 = Fin (6369051672525773 / 2 ^ 53)"
    "Math_sin fdlibm PI_4 = Fin (6369051672525772 / 2 ^ 53)"
    "Math_cos fdlibm (num_neg PI_4) = Fin (6369051672525773 / 2 ^ 53)"
    "Math_sin fdlibm (num_neg PI_4) = Fin (- (6369051672525772 / 2 ^ 53))"
    using ne by (simp_all add: fdlibm_def)
  show ?thesis
    unfolding accurate_at_PI_4_def v by (intro conjI in_range_Fin) simp_all
qed

theorem GATES_isUnitary_witness:
  "accurate_at_PI_4 fdlibm \<and> isUnitary (GATES fdlibm T) literal_1e_12 \<and>
   isUnitary (GATES fdlibm H) literal_1e_12"
  using GATES_isUnitary [OF accurate_fdlibm, of T] GATES_isUnitary [OF accurate_fdlibm, of H]
    accurate_fdlibm
  by simp

end
